theory Spec2Isabelle
  imports Main
begin

section \<open>The menu service of \<^verbatim>\<open>server.js\<close>\<close>

text \<open>
  The service keeps two module variables, \<^verbatim>\<open>nextId\<close> and \<^verbatim>\<open>menu\<close>, and answers five
  routes. The write routes run the middleware \<^verbatim>\<open>menuValidators\<close> (six validation
  chains of the express-validator package), then \<^verbatim>\<open>handleValidation\<close>, then the route's
  own handler. Each request is served to completion before the next one, so a route is
  a function from the store and the request to the new store and the response.
\<close>

subsection \<open>JavaScript values\<close>

text \<open>
  A number is carried as the decimal \<open>m * 10 ^ e\<close> (every number of a JSON text is one),
  or is \<open>NaN\<close>. Decimals are exact here: the rounding of binary floating point, the
  underflow to zero and the overflow to infinity are outside the model (a price text such
  as \<^verbatim>\<open>1e-400\<close> is positive here and zero in a double), and a counter never stops
  counting.
  Strings are sequences of code units below 256.
\<close>

datatype jsnumber = Decimal int int | NaN

datatype jsval =
    JUndefined
  | JNull
  | JBool bool
  | JNum jsnumber
  | JStr string
  | JArr "jsval list"
  | JObj "(string \<times> jsval) list"

text \<open>A parsed request body is an object; reading a missing property gives \<^verbatim>\<open>undefined\<close>.\<close>

type_synonym body = "string \<rightharpoonup> jsval"

definition field_value :: "body \<Rightarrow> string \<Rightarrow> jsval" where
  "field_value b k = (case b k of None \<Rightarrow> JUndefined | Some v \<Rightarrow> v)"

text \<open>\<^verbatim>\<open>!!value\<close>\<close>

fun truthy :: "jsval \<Rightarrow> bool" where
  "truthy JUndefined = False"
| "truthy JNull = False"
| "truthy (JBool b) = b"
| "truthy (JNum (Decimal m e)) = (m \<noteq> 0)"
| "truthy (JNum NaN) = False"
| "truthy (JStr s) = (s \<noteq> [])"
| "truthy (JArr xs) = True"
| "truthy (JObj kvs) = True"

subsection \<open>Numbers as text\<close>

definition digit_chars :: string where
  "digit_chars = ''0123456789''"

definition is_digit :: "char \<Rightarrow> bool" where
  "is_digit c = (c \<in> set digit_chars)"

text \<open>The value of a digit is its place among the digits.\<close>

definition digit_val :: "char \<Rightarrow> nat" where
  "digit_val c = length (takeWhile (\<lambda>d. d \<noteq> c) digit_chars)"

text \<open>The value of a run of decimal digits, most significant first.\<close>

definition digits_value :: "string \<Rightarrow> nat" where
  "digits_value s = foldl (\<lambda>acc c. acc * 10 + digit_val c) 0 s"

text \<open>The decimal digits of a natural number.\<close>

fun digits_of :: "nat \<Rightarrow> string" where
  "digits_of n =
     (if n < 10 then [digit_chars ! n] else digits_of (n div 10) @ [digit_chars ! (n mod 10)])"

declare digits_of.simps [simp del]

text \<open>Dropping the trailing zeros of a mantissa into the exponent.\<close>

fun strip_zeros :: "nat \<Rightarrow> int \<Rightarrow> nat \<times> int" where
  "strip_zeros m e =
     (if m \<noteq> 0 \<and> m mod 10 = 0 then strip_zeros (m div 10) (e + 1) else (m, e))"

declare strip_zeros.simps [simp del]

text \<open>
  \<^verbatim>\<open>String(n)\<close> for a number, after \<^verbatim>\<open>Number::toString\<close> of ECMAScript: with \<open>k\<close>
  significant digits \<open>s\<close> and the decimal point after the \<open>n\<close>-th of them, plain notation
  for \<open>-6 < n \<le> 21\<close> and exponent notation otherwise.
\<close>

definition Number_toString :: "jsnumber \<Rightarrow> string" where
  "Number_toString x =
     (case x of
        NaN \<Rightarrow> ''NaN''
      | Decimal m e \<Rightarrow>
          if m = 0 then ''0''
          else
            (let (a, e') = strip_zeros (nat \<bar>m\<bar>) e;
                 s = digits_of a;
                 k = int (length s);
                 n = k + e';
                 txt =
                   (if k \<le> n \<and> n \<le> 21 then s @ replicate (nat (n - k)) CHR ''0''
                    else if 0 < n \<and> n \<le> 21 then take (nat n) s @ ''.'' @ drop (nat n) s
                    else if - 6 < n \<and> n \<le> 0 then ''0.'' @ replicate (nat (- n)) CHR ''0'' @ s
                    else
                      (let ex = n - 1;
                           es = (if ex < 0 then ''-'' else ''+'') @ digits_of (nat \<bar>ex\<bar>)
                       in if k = 1 then s @ ''e'' @ es
                          else take 1 s @ ''.'' @ drop 1 s @ ''e'' @ es))
             in (if m < 0 then ''-'' else '''') @ txt))"

text \<open>
  \<^verbatim>\<open>Array.prototype.toString\<close> joins the elements' strings with commas, \<^verbatim>\<open>null\<close> and
  \<^verbatim>\<open>undefined\<close> giving the empty string; a plain object prints as \<^verbatim>\<open>[object Object]\<close>.
\<close>

fun join_comma :: "string list \<Rightarrow> string" where
  "join_comma [] = []"
| "join_comma [s] = s"
| "join_comma (s # t # ss) = s @ '','' @ join_comma (t # ss)"

fun js_String :: "jsval \<Rightarrow> string" where
  "js_String JUndefined = ''undefined''"
| "js_String JNull = ''null''"
| "js_String (JBool b) = (if b then ''true'' else ''false'')"
| "js_String (JNum x) = Number_toString x"
| "js_String (JStr s) = s"
| "js_String (JArr xs) =
     join_comma (map (\<lambda>x. if x = JUndefined \<or> x = JNull then [] else js_String x) xs)"
| "js_String (JObj kvs) = ''[object Object]''"

subsection \<open>The validators of the validator package, on strings\<close>

definition split_sign :: "string \<Rightarrow> bool \<times> string" where
  "split_sign s =
     (case s of
        [] \<Rightarrow> (False, [])
      | c # r \<Rightarrow>
          if c = CHR ''-'' then (True, r) else if c = CHR ''+'' then (False, r) else (False, s))"

text \<open>
  The pattern of \<^verbatim>\<open>isFloat\<close>: an optional sign, digits, an optional point with digits,
  an optional exponent (\<^verbatim>\<open>e\<close> or \<^verbatim>\<open>E\<close>, an optional sign, at least one digit).
  \<open>float_pattern s\<close> is \<open>None\<close> when \<open>s\<close> does not match, and otherwise what
  \<^verbatim>\<open>parseFloat\<close> reads from \<open>s\<close>: \<open>NaN\<close> when the mantissa has no digit at all.
\<close>

definition float_pattern :: "string \<Rightarrow> jsnumber option" where
  "float_pattern s =
     (let (neg, s1) = split_sign s;
          ip = takeWhile is_digit s1;
          s2 = dropWhile is_digit s1;
          (fp, s3) =
            (case s2 of
               [] \<Rightarrow> ([], [])
             | c # r \<Rightarrow>
                 if c = CHR ''.'' then (takeWhile is_digit r, dropWhile is_digit r)
                 else ([], s2));
          ex =
            (case s3 of
               [] \<Rightarrow> Some 0
             | c # r \<Rightarrow>
                 if c = CHR ''e'' \<or> c = CHR ''E'' then
                   (let (eneg, ds) = split_sign r
                    in if ds \<noteq> [] \<and> list_all is_digit ds
                       then Some (if eneg then - int (digits_value ds) else int (digits_value ds))
                       else None)
                 else None)
      in case ex of
           None \<Rightarrow> None
         | Some x \<Rightarrow>
             Some (if ip = [] \<and> fp = [] then NaN
                   else Decimal ((if neg then - 1 else 1) * int (digits_value (ip @ fp)))
                          (x - int (length fp))))"

definition float_excluded :: "string \<Rightarrow> bool" where
  "float_excluded s = (s = [] \<or> s = ''.'' \<or> s = '','' \<or> s = ''-'' \<or> s = ''+'')"

text \<open>\<^verbatim>\<open>isFloat(str, { gt: 0 })\<close>\<close>

definition isFloat_gt0 :: "string \<Rightarrow> bool" where
  "isFloat_gt0 s =
     (\<not> float_excluded s \<and>
      (case float_pattern s of Some (Decimal m e) \<Rightarrow> 0 < m | _ \<Rightarrow> False))"

text \<open>\<^verbatim>\<open>toFloat(str)\<close>: \<^verbatim>\<open>NaN\<close> unless \<^verbatim>\<open>isFloat(str)\<close>, and \<^verbatim>\<open>parseFloat(str)\<close> then.\<close>

definition toFloat :: "string \<Rightarrow> jsval" where
  "toFloat s =
     (if float_excluded s then JNum NaN
      else case float_pattern s of None \<Rightarrow> JNum NaN | Some x \<Rightarrow> JNum x)"

text \<open>\<^verbatim>\<open>isLength(str, { min })\<close>\<close>

definition isLength_min :: "nat \<Rightarrow> string \<Rightarrow> bool" where
  "isLength_min n s = (n \<le> length s)"

text \<open>\<^verbatim>\<open>isIn(str, values)\<close>\<close>

definition isIn :: "string list \<Rightarrow> string \<Rightarrow> bool" where
  "isIn vs s = (s \<in> set vs)"

text \<open>\<^verbatim>\<open>isBoolean(str)\<close>, not loose, and \<^verbatim>\<open>toBoolean(str)\<close>, not strict.\<close>

definition isBoolean :: "string \<Rightarrow> bool" where
  "isBoolean s = (s \<in> set [''true'', ''false'', ''1'', ''0''])"

definition ascii_lower :: "char \<Rightarrow> char" where
  "ascii_lower c =
     (case map_of (zip ''ABCDEFGHIJKLMNOPQRSTUVWXYZ'' ''abcdefghijklmnopqrstuvwxyz'') c of
        None \<Rightarrow> c
      | Some l \<Rightarrow> l)"

definition toBoolean :: "string \<Rightarrow> jsval" where
  "toBoolean s = JBool (s \<noteq> ''0'' \<and> map ascii_lower s \<noteq> ''false'' \<and> s \<noteq> [])"

text \<open>\<^verbatim>\<open>String.prototype.trim\<close>\<close>

definition is_space :: "char \<Rightarrow> bool" where
  "is_space c = (of_char c \<in> set [9, 10, 11, 12, 13, 32, 160 :: nat])"

definition trim :: "string \<Rightarrow> string" where
  "trim s = rev (dropWhile is_space (rev (dropWhile is_space s)))"

subsection \<open>Validation chains of express-validator\<close>

text \<open>
  The chains are modelled after express-validator 7, whose errors carry the \<^verbatim>\<open>path\<close>
  that \<^verbatim>\<open>handleValidation\<close> reads, and the validator package under it.
  A chain runs its items in order on the field's value. No chain of this program bails
  out, so every validator of a chain runs and each failure adds one error carrying the
  message set by \<^verbatim>\<open>withMessage\<close>; the chains run in the order of \<^verbatim>\<open>menuValidators\<close>.

  The package stringifies a value for a standard validator or sanitizer: \<^verbatim>\<open>null\<close>,
  \<^verbatim>\<open>undefined\<close> and \<^verbatim>\<open>NaN\<close> become the empty string, objects go through their
  \<^verbatim>\<open>toString\<close> and the rest through \<^verbatim>\<open>String\<close>. Objects are plain objects: one with
  a member named \<^verbatim>\<open>toString\<close> of its own is outside the model.
\<close>

definition toString_impl :: "jsval \<Rightarrow> string" where
  "toString_impl v = (if v = JUndefined \<or> v = JNull \<or> v = JNum NaN then [] else js_String v)"

type_synonym field_error = "string \<times> string"

text \<open>A custom validator sees the value as it is.\<close>

definition custom_validation :: "(jsval \<Rightarrow> bool) \<Rightarrow> string \<Rightarrow> string \<Rightarrow> jsval \<Rightarrow> field_error list" where
  "custom_validation p path msg v = (if p v then [] else [(path, msg)])"

text \<open>
  A standard validator or sanitizer sees the stringified value, and for an array value
  each of its elements in turn.
\<close>

definition values_of :: "jsval \<Rightarrow> jsval list" where
  "values_of v = (case v of JArr xs \<Rightarrow> xs | _ \<Rightarrow> [v])"

definition standard_validation :: "(string \<Rightarrow> bool) \<Rightarrow> string \<Rightarrow> string \<Rightarrow> jsval \<Rightarrow> field_error list" where
  "standard_validation p path msg v =
     map (\<lambda>x. (path, msg)) (filter (\<lambda>x. \<not> p (toString_impl x)) (values_of v))"

definition standard_sanitization :: "(string \<Rightarrow> jsval) \<Rightarrow> jsval \<Rightarrow> jsval" where
  "standard_sanitization f v =
     (case v of JArr xs \<Rightarrow> JArr (map (\<lambda>x. f (toString_impl x)) xs) | _ \<Rightarrow> f (toString_impl v))"

text \<open>\<^verbatim>\<open>exists()\<close>, \<^verbatim>\<open>exists({ checkFalsy: true })\<close>, \<^verbatim>\<open>isString()\<close>, \<^verbatim>\<open>isArray({ min })\<close>\<close>

definition exists :: "jsval \<Rightarrow> bool" where
  "exists v = (v \<noteq> JUndefined)"

definition exists_checkFalsy :: "jsval \<Rightarrow> bool" where
  "exists_checkFalsy v = truthy v"

definition isString :: "jsval \<Rightarrow> bool" where
  "isString v = (case v of JStr s \<Rightarrow> True | _ \<Rightarrow> False)"

definition isArray_min :: "nat \<Rightarrow> jsval \<Rightarrow> bool" where
  "isArray_min n v = (case v of JArr xs \<Rightarrow> n \<le> length xs | _ \<Rightarrow> False)"

subsection \<open>\<^verbatim>\<open>menuValidators\<close>\<close>

definition categories :: "string list" where
  "categories = [''appetizer'', ''entree'', ''dessert'', ''beverage'']"

definition name_chain :: "body \<Rightarrow> field_error list" where
  "name_chain b =
     (let v = field_value b ''name'' in
        custom_validation exists_checkFalsy ''name'' ''name required'' v
      @ custom_validation isString ''name'' ''name must be a string'' v
      @ standard_validation (isLength_min 3) ''name'' ''name min 3 chars'' v)"

definition description_chain :: "body \<Rightarrow> field_error list" where
  "description_chain b =
     (let v = field_value b ''description'' in
        custom_validation exists_checkFalsy ''description'' ''description required'' v
      @ custom_validation isString ''description'' ''description must be a string'' v
      @ standard_validation (isLength_min 10) ''description'' ''description min 10 chars'' v)"

definition price_chain :: "body \<Rightarrow> field_error list" where
  "price_chain b =
     (let v = field_value b ''price'' in
        custom_validation exists ''price'' ''price required'' v
      @ standard_validation isFloat_gt0 ''price'' ''price must be number > 0'' v)"

definition category_chain :: "body \<Rightarrow> field_error list" where
  "category_chain b =
     (let v = field_value b ''category'' in
        custom_validation exists_checkFalsy ''category'' ''category required'' v
      @ custom_validation isString ''category'' ''category must be string'' v
      @ standard_validation (isIn categories) ''category''
          ''category must be appetizer, entree, dessert or beverage'' v)"

definition ingredients_chain :: "body \<Rightarrow> field_error list" where
  "ingredients_chain b =
     (let v = field_value b ''ingredients'' in
        custom_validation exists ''ingredients'' ''ingredients required'' v
      @ custom_validation (isArray_min 1) ''ingredients''
          ''ingredients must be array with at least 1 item'' v)"

text \<open>\<^verbatim>\<open>optional()\<close> skips the whole chain, sanitizer included, when the field is undefined.\<close>

definition available_chain :: "body \<Rightarrow> field_error list" where
  "available_chain b =
     (let v = field_value b ''available'' in
        if v = JUndefined then []
        else standard_validation isBoolean ''available'' ''available must be boolean'' v)"

text \<open>The errors \<^verbatim>\<open>validationResult(req)\<close> collects, in the order of the chains.\<close>

definition validationResult :: "body \<Rightarrow> field_error list" where
  "validationResult b =
     name_chain b @ description_chain b @ price_chain b @ category_chain b
     @ ingredients_chain b @ available_chain b"

text \<open>The sanitizers \<^verbatim>\<open>toFloat()\<close> and \<^verbatim>\<open>toBoolean()\<close> write their result back into the body.\<close>

definition sanitized :: "body \<Rightarrow> body" where
  "sanitized b =
     (let b1 = b(''price'' \<mapsto> standard_sanitization toFloat (field_value b ''price''))
      in if field_value b ''available'' = JUndefined then b1
         else b1(''available'' \<mapsto> standard_sanitization toBoolean (field_value b ''available'')))"

subsection \<open>The store and the responses\<close>

record menu_item =
  item_id :: int
  name :: string
  description :: string
  price :: jsval
  category :: jsval
  ingredients :: jsval
  available :: bool

record store =
  nextId :: int
  menu :: "menu_item list"

datatype payload =
    Items "menu_item list"
  | Item menu_item
  | Error string
  | Errors "field_error list"

datatype response = Response nat payload

fun status :: "response \<Rightarrow> nat" where
  "status (Response c p) = c"

definition initial_store :: store where
  "initial_store =
     \<lparr> nextId = 3,
       menu =
         [ \<lparr> item_id = 1,
             name = ''Classic Burger'',
             description = ''Beef patty with lettuce, tomato, cheese, sesame bun'',
             price = JNum (Decimal 1299 (- 2)),
             category = JStr ''entree'',
             ingredients =
               JArr [JStr ''beef'', JStr ''lettuce'', JStr ''tomato'', JStr ''cheese'', JStr ''bun''],
             available = True \<rparr>,
           \<lparr> item_id = 2,
             name = ''Chocolate Lava Cake'',
             description = ''Warm cake with molten center + vanilla ice cream'',
             price = JNum (Decimal 75 (- 1)),
             category = JStr ''dessert'',
             ingredients =
               JArr [JStr ''flour'', JStr ''cocoa'', JStr ''eggs'', JStr ''sugar'', JStr ''butter''],
             available = True \<rparr> ] \<rparr>"

subsection \<open>Looking an item up by the id of the path\<close>

text \<open>
  The handlers compare \<^verbatim>\<open>m.id === id\<close> with \<^verbatim>\<open>id = Number(req.params.id)\<close>. The number
  that \<^verbatim>\<open>Number\<close> makes of the path's text is the handler's input here. \<^verbatim>\<open>NaN\<close> equals
  nothing.
\<close>

definition strict_eq_id :: "jsnumber \<Rightarrow> int \<Rightarrow> bool" where
  "strict_eq_id k i =
     (case k of
        NaN \<Rightarrow> False
      | Decimal m e \<Rightarrow> if 0 \<le> e then m * 10 ^ nat e = i else m = i * 10 ^ nat (- e))"

text \<open>\<^verbatim>\<open>Array.prototype.findIndex\<close>, with \<open>None\<close> for the result \<open>-1\<close>.\<close>

fun findIndex :: "('a \<Rightarrow> bool) \<Rightarrow> 'a list \<Rightarrow> nat option" where
  "findIndex P [] = None"
| "findIndex P (x # xs) = (if P x then Some 0 else map_option Suc (findIndex P xs))"

subsection \<open>The routes\<close>

definition not_found :: response where
  "not_found = Response 404 (Error ''Menu item not found'')"

definition internal_error :: response where
  "internal_error = Response 500 (Error ''Internal server error'')"

text \<open>\<^verbatim>\<open>GET /api/menu\<close> and \<^verbatim>\<open>GET /api/menu/:id\<close>\<close>

definition get_menu :: "store \<Rightarrow> store \<times> response" where
  "get_menu s = (s, Response 200 (Items (menu s)))"

definition get_menu_id :: "store \<Rightarrow> jsnumber \<Rightarrow> store \<times> response" where
  "get_menu_id s k =
     (case find (\<lambda>m. strict_eq_id k (item_id m)) (menu s) of
        None \<Rightarrow> (s, not_found)
      | Some item \<Rightarrow> (s, Response 200 (Item item)))"

text \<open>
  \<^verbatim>\<open>name.trim()\<close> throws a TypeError unless \<^verbatim>\<open>name\<close> is a string; the global error
  handler turns it into the response 500.
\<close>

definition trim_method :: "jsval \<Rightarrow> string option" where
  "trim_method v = (case v of JStr s \<Rightarrow> Some (trim s) | _ \<Rightarrow> None)"

text \<open>\<^verbatim>\<open>typeof available === 'boolean' ? available : dflt\<close>\<close>

definition boolean_or :: "jsval \<Rightarrow> bool \<Rightarrow> bool" where
  "boolean_or v dflt = (case v of JBool a \<Rightarrow> a | _ \<Rightarrow> dflt)"

text \<open>
  The handler of \<^verbatim>\<open>POST /api/menu\<close>. The object literal evaluates \<^verbatim>\<open>nextId++\<close> first, so
  the counter has moved when a \<^verbatim>\<open>trim\<close> throws.
\<close>

definition post_handler :: "store \<Rightarrow> body \<Rightarrow> store \<times> response" where
  "post_handler s b =
     (let s1 = s\<lparr>nextId := nextId s + 1\<rparr> in
      case trim_method (field_value b ''name'') of
        None \<Rightarrow> (s1, internal_error)
      | Some n \<Rightarrow>
          (case trim_method (field_value b ''description'') of
             None \<Rightarrow> (s1, internal_error)
           | Some d \<Rightarrow>
               (let newItem =
                      \<lparr> item_id = nextId s,
                        name = n,
                        description = d,
                        price = field_value b ''price'',
                        category = field_value b ''category'',
                        ingredients = field_value b ''ingredients'',
                        available = boolean_or (field_value b ''available'') True \<rparr>
                in (s1\<lparr>menu := menu s @ [newItem]\<rparr>, Response 201 (Item newItem)))))"

text \<open>
  \<^verbatim>\<open>handleValidation\<close>: the response 400 with the errors, or the next handler. The
  chains have run before it, so the next handler reads the body as the sanitizers left it.
\<close>

definition handleValidation :: "(store \<Rightarrow> body \<Rightarrow> store \<times> response) \<Rightarrow> store \<Rightarrow> body \<Rightarrow> store \<times> response" where
  "handleValidation next s b =
     (let errors = validationResult b in
      if errors \<noteq> [] then (s, Response 400 (Errors errors)) else next s (sanitized b))"

definition post_menu :: "store \<Rightarrow> body \<Rightarrow> store \<times> response" where
  "post_menu s b = handleValidation post_handler s b"

text \<open>The handler of \<^verbatim>\<open>PUT /api/menu/:id\<close>\<close>

definition put_handler :: "jsnumber \<Rightarrow> store \<Rightarrow> body \<Rightarrow> store \<times> response" where
  "put_handler k s b =
     (case findIndex (\<lambda>m. strict_eq_id k (item_id m)) (menu s) of
        None \<Rightarrow> (s, not_found)
      | Some idx \<Rightarrow>
          (case trim_method (field_value b ''name'') of
             None \<Rightarrow> (s, internal_error)
           | Some n \<Rightarrow>
               (case trim_method (field_value b ''description'') of
                  None \<Rightarrow> (s, internal_error)
                | Some d \<Rightarrow>
                    (let updated =
                           (menu s ! idx)
                             \<lparr> name := n,
                               description := d,
                               price := field_value b ''price'',
                               category := field_value b ''category'',
                               ingredients := field_value b ''ingredients'',
                               available :=
                                 boolean_or (field_value b ''available'') (available (menu s ! idx)) \<rparr>
                     in (s\<lparr>menu := (menu s)[idx := updated]\<rparr>, Response 200 (Item updated))))))"

definition put_menu :: "store \<Rightarrow> jsnumber \<Rightarrow> body \<Rightarrow> store \<times> response" where
  "put_menu s k b = handleValidation (put_handler k) s b"

text \<open>\<^verbatim>\<open>DELETE /api/menu/:id\<close>: \<^verbatim>\<open>menu.splice(idx, 1)[0]\<close> takes the item at \<open>idx\<close> out.\<close>

definition delete_menu :: "store \<Rightarrow> jsnumber \<Rightarrow> store \<times> response" where
  "delete_menu s k =
     (case findIndex (\<lambda>m. strict_eq_id k (item_id m)) (menu s) of
        None \<Rightarrow> (s, not_found)
      | Some idx \<Rightarrow>
          (s\<lparr>menu := take idx (menu s) @ drop (Suc idx) (menu s)\<rparr>,
           Response 200 (Item (menu s ! idx))))"

subsection \<open>Serving requests one after another\<close>

datatype request =
    GET_all
  | GET_by_id jsnumber
  | POST body
  | PUT jsnumber body
  | DELETE jsnumber

fun handle :: "store \<Rightarrow> request \<Rightarrow> store \<times> response" where
  "handle s GET_all = get_menu s"
| "handle s (GET_by_id k) = get_menu_id s k"
| "handle s (POST b) = post_menu s b"
| "handle s (PUT k b) = put_menu s k b"
| "handle s (DELETE k) = delete_menu s k"

fun serve :: "store \<Rightarrow> request list \<Rightarrow> store \<times> response list" where
  "serve s [] = (s, [])"
| "serve s (r # rs) =
     (case handle s r of
        (s1, resp) \<Rightarrow> (case serve s1 rs of (s2, resps) \<Rightarrow> (s2, resp # resps)))"

subsection \<open>Vocabulary of the properties\<close>

text \<open>The fields every create and update payload must carry.\<close>

definition required_fields :: "string list" where
  "required_fields = [''name'', ''description'', ''price'', ''category'', ''ingredients'']"

text \<open>The store and the responses after a fresh instance has served the requests \<open>rs\<close>.\<close>

definition reached :: "request list \<Rightarrow> store" where
  "reached rs = fst (serve initial_store rs)"

definition responses :: "request list \<Rightarrow> response list" where
  "responses rs = snd (serve initial_store rs)"

text \<open>
  The ids assigned so far: those of the seed items and those of the items that the
  responses 201 returned.
\<close>

fun created_id :: "response \<Rightarrow> int list" where
  "created_id (Response c (Item x)) = (if c = 201 then [item_id x] else [])"
| "created_id (Response c p) = []"

definition assigned_ids :: "response list \<Rightarrow> int list" where
  "assigned_ids resps = map item_id (menu initial_store) @ concat (map created_id resps)"

text \<open>\<^verbatim>\<open>Number.isInteger\<close>: the decimal \<open>m * 10 ^ e\<close> is a whole number.\<close>

definition is_integer :: "jsnumber \<Rightarrow> bool" where
  "is_integer k = (case k of NaN \<Rightarrow> False | Decimal m e \<Rightarrow> 0 \<le> e \<or> 10 ^ nat (- e) dvd m)"

text \<open>Stored ids are pairwise different and below the counter.\<close>

definition store_inv :: "store \<Rightarrow> bool" where
  "store_inv s = (distinct (map item_id (menu s)) \<and> list_all (\<lambda>x. item_id x < nextId s) (menu s))"

subsection \<open>Example requests\<close>

text \<open>The payloads of the examples, and variations of the first.\<close>

definition veggie_wrap :: body where
  "veggie_wrap =
     [''name'' \<mapsto> JStr ''Veggie Wrap'',
      ''description'' \<mapsto> JStr ''Grilled veggies in a wrap'',
      ''price'' \<mapsto> JNum (Decimal 85 (- 1)),
      ''category'' \<mapsto> JStr ''entree'',
      ''ingredients'' \<mapsto> JArr [JStr ''lettuce'', JStr ''pepper'']]"

definition too_short :: body where
  "too_short =
     [''name'' \<mapsto> JStr ''Hi'',
      ''description'' \<mapsto> JStr ''short'',
      ''price'' \<mapsto> JNum (Decimal (- 1) 0),
      ''category'' \<mapsto> JStr ''snack'',
      ''ingredients'' \<mapsto> JArr []]"

definition padded :: body where
  "padded =
     [''name'' \<mapsto> JStr ''A  '',
      ''description'' \<mapsto> JStr ''tasty     '',
      ''price'' \<mapsto> JNum (Decimal 5 0),
      ''category'' \<mapsto> JStr ''entree'',
      ''ingredients'' \<mapsto> JArr [JStr ''x'']]"

definition veggie_wrap_off :: body where
  "veggie_wrap_off = veggie_wrap(''available'' \<mapsto> JStr ''false'')"

definition veggie_wrap_one :: body where
  "veggie_wrap_one = veggie_wrap(''available'' \<mapsto> JNum (Decimal 1 0))"

section \<open>Properties\<close>

subsection \<open>Validation and the handlers behind it\<close>

lemmas chain_defs =
  validationResult_def name_chain_def description_chain_def price_chain_def category_chain_def
  ingredients_chain_def available_chain_def

lemma custom_validation_Nil [simp]: "custom_validation p path msg v = [] \<longleftrightarrow> p v"
  by (simp add: custom_validation_def)

lemma standard_validation_Nil:
  "standard_validation p path msg v = [] \<longleftrightarrow> list_all (\<lambda>x. p (toString_impl x)) (values_of v)"
  by (simp add: standard_validation_def filter_empty_conv list_all_iff)

lemma valid_name: "validationResult b = [] \<Longrightarrow> \<exists>n. field_value b ''name'' = JStr n"
  by (auto simp: chain_defs Let_def isString_def split: jsval.splits)

lemma valid_description: "validationResult b = [] \<Longrightarrow> \<exists>d. field_value b ''description'' = JStr d"
  by (auto simp: chain_defs Let_def isString_def split: jsval.splits)

lemma field_value_sanitized:
  "k \<noteq> ''price'' \<Longrightarrow> k \<noteq> ''available'' \<Longrightarrow> field_value (sanitized b) k = field_value b k"
  by (simp add: sanitized_def field_value_def Let_def)

lemma price_sanitized:
  "field_value (sanitized b) ''price'' = standard_sanitization toFloat (field_value b ''price'')"
  by (simp add: sanitized_def field_value_def Let_def)

lemma available_sanitized:
  "field_value (sanitized b) ''available'' =
     (if field_value b ''available'' = JUndefined then JUndefined
      else standard_sanitization toBoolean (field_value b ''available''))"
  by (simp add: sanitized_def field_value_def Let_def split: option.splits)

text \<open>What a create request with a valid body does.\<close>

lemma post_menu_valid:
  assumes "validationResult b = []"
  shows "\<exists>n d. field_value b ''name'' = JStr n \<and> field_value b ''description'' = JStr d \<and>
    post_menu s b =
      (s\<lparr>nextId := nextId s + 1,
         menu := menu s @
           [\<lparr> item_id = nextId s, name = trim n, description = trim d,
              price = standard_sanitization toFloat (field_value b ''price''),
              category = field_value b ''category'',
              ingredients = field_value b ''ingredients'',
              available = boolean_or (field_value (sanitized b) ''available'') True \<rparr>]\<rparr>,
       Response 201 (Item
           \<lparr> item_id = nextId s, name = trim n, description = trim d,
              price = standard_sanitization toFloat (field_value b ''price''),
              category = field_value b ''category'',
              ingredients = field_value b ''ingredients'',
              available = boolean_or (field_value (sanitized b) ''available'') True \<rparr>))"
proof -
  from assms obtain n where n: "field_value b ''name'' = JStr n"
    using valid_name by blast
  from assms obtain d where d: "field_value b ''description'' = JStr d"
    using valid_description by blast
  show ?thesis
    using assms n d
    by (simp add: post_menu_def handleValidation_def post_handler_def trim_method_def
        field_value_sanitized price_sanitized Let_def)
qed

lemma post_menu_invalid:
  "validationResult b \<noteq> [] \<Longrightarrow> post_menu s b = (s, Response 400 (Errors (validationResult b)))"
  by (simp add: post_menu_def handleValidation_def Let_def)

lemma put_menu_invalid:
  "validationResult b \<noteq> [] \<Longrightarrow> put_menu s k b = (s, Response 400 (Errors (validationResult b)))"
  by (simp add: put_menu_def handleValidation_def Let_def)

lemma findIndex_None: "findIndex P xs = None \<longleftrightarrow> (\<forall>x \<in> set xs. \<not> P x)"
  by (induction xs) auto

lemma findIndex_Some:
  "findIndex P xs = Some i \<Longrightarrow> i < length xs \<and> P (xs ! i) \<and> (\<forall>j < i. \<not> P (xs ! j))"
proof (induction xs arbitrary: i)
  case Nil
  then show ?case by simp
next
  case (Cons x xs)
  show ?case
  proof (cases "P x")
    case True
    with Cons.prems show ?thesis by simp
  next
    case False
    with Cons.prems obtain j where j: "findIndex P xs = Some j" "i = Suc j"
      by auto
    from Cons.IH [OF j(1)] False j(2) show ?thesis
      by (auto simp: less_Suc_eq_0_disj)
  qed
qed

lemma find_None: "find P xs = None \<longleftrightarrow> (\<forall>x \<in> set xs. \<not> P x)"
  by (auto simp: find_None_iff)

lemma put_menu_valid_found:
  assumes "validationResult b = []"
    and "findIndex (\<lambda>m. strict_eq_id k (item_id m)) (menu s) = Some idx"
  shows "\<exists>n d. field_value b ''name'' = JStr n \<and> field_value b ''description'' = JStr d \<and>
    put_menu s k b =
      (s\<lparr>menu := (menu s)[idx := (menu s ! idx)
            \<lparr> name := trim n, description := trim d,
              price := standard_sanitization toFloat (field_value b ''price''),
              category := field_value b ''category'',
              ingredients := field_value b ''ingredients'',
              available := boolean_or (field_value (sanitized b) ''available'')
                 (available (menu s ! idx)) \<rparr>]\<rparr>,
       Response 200 (Item ((menu s ! idx)
            \<lparr> name := trim n, description := trim d,
              price := standard_sanitization toFloat (field_value b ''price''),
              category := field_value b ''category'',
              ingredients := field_value b ''ingredients'',
              available := boolean_or (field_value (sanitized b) ''available'')
                 (available (menu s ! idx)) \<rparr>)))"
proof -
  from assms(1) obtain n where n: "field_value b ''name'' = JStr n"
    using valid_name by blast
  from assms(1) obtain d where d: "field_value b ''description'' = JStr d"
    using valid_description by blast
  show ?thesis
    using assms n d
    by (simp add: put_menu_def handleValidation_def put_handler_def trim_method_def
        field_value_sanitized price_sanitized Let_def)
qed

lemma put_menu_valid_missing:
  assumes "validationResult b = []"
    and "findIndex (\<lambda>m. strict_eq_id k (item_id m)) (menu s) = None"
  shows "put_menu s k b = (s, not_found)"
  using assms by (simp add: put_menu_def handleValidation_def put_handler_def Let_def)


subsection \<open>The invariant of the store\<close>

lemma strict_eq_id_unique: "strict_eq_id k i \<Longrightarrow> strict_eq_id k j \<Longrightarrow> i = j"
  by (auto simp: strict_eq_id_def split: jsnumber.splits if_splits)

lemma strict_eq_id_int: "strict_eq_id (Decimal i 0) j \<longleftrightarrow> i = j"
  by (simp add: strict_eq_id_def)

lemma strict_eq_id_integer: "strict_eq_id k i \<Longrightarrow> is_integer k"
  by (auto simp: strict_eq_id_def is_integer_def split: jsnumber.splits if_splits)

lemma store_inv_initial: "store_inv initial_store"
  by (simp add: store_inv_def initial_store_def)

lemma store_inv_post_handler: "store_inv s \<Longrightarrow> store_inv (fst (post_handler s b))"
  by (auto simp: store_inv_def post_handler_def Let_def list_all_iff split: option.splits)

lemma map_item_id_update:
  assumes "item_id y = item_id (xs ! i)"
  shows "map item_id (xs[i := y]) = map item_id xs"
proof (cases "i < length xs")
  case True
  with assms have "map item_id (xs[i := y]) = (map item_id xs)[i := map item_id xs ! i]"
    by (simp add: map_update)
  then show ?thesis by simp
next
  case False
  then have "xs[i := y] = xs" by (simp add: list_update_beyond)
  then show ?thesis by simp
qed

lemma store_inv_put_handler:
  assumes "store_inv s"
  shows "store_inv (fst (put_handler k s b))"
proof (cases "findIndex (\<lambda>m. strict_eq_id k (item_id m)) (menu s)")
  case None
  with assms show ?thesis by (simp add: put_handler_def)
next
  case (Some idx)
  then have idx: "idx < length (menu s)"
    using findIndex_Some by fastforce
  have ids: "map item_id ((menu s)[idx := (menu s ! idx)\<lparr>name := n, description := d,
      price := p, category := c, ingredients := g, available := a\<rparr>]) = map item_id (menu s)"
    for n d p c g a
    by (rule map_item_id_update) simp
  have "list_all (\<lambda>x. item_id x < nextId s) ((menu s)[idx := (menu s ! idx)\<lparr>name := n,
      description := d, price := p, category := c, ingredients := g, available := a\<rparr>])"
    for n d p c g a
    using assms idx
    by (auto simp: store_inv_def list_all_iff dest!: set_update_subset_insert [THEN subsetD])
  with assms Some ids show ?thesis
    by (simp add: store_inv_def put_handler_def Let_def split: option.splits)
qed

lemma store_inv_handleValidation:
  assumes "\<And>b. store_inv (fst (next s b))" and "store_inv s"
  shows "store_inv (fst (handleValidation next s b))"
  using assms by (simp add: handleValidation_def Let_def)

lemma distinct_remove_nth:
  "distinct (map f xs) \<Longrightarrow> distinct (map f (take i xs @ drop (Suc i) xs))"
proof (induction xs arbitrary: i)
  case Nil
  then show ?case by simp
next
  case (Cons x xs)
  show ?case
  proof (cases i)
    case 0
    with Cons.prems show ?thesis by simp
  next
    case (Suc j)
    have "set (take j xs @ drop (Suc j) xs) \<subseteq> set xs"
      by (auto dest: in_set_takeD in_set_dropD)
    then have "f x \<notin> f ` set (take j xs @ drop (Suc j) xs)"
      using Cons.prems by auto
    with Cons.IH [of j] Cons.prems Suc show ?thesis by (auto simp: image_Un)
  qed
qed

lemma store_inv_delete:
  assumes "store_inv s"
  shows "store_inv (fst (delete_menu s k))"
proof (cases "findIndex (\<lambda>m. strict_eq_id k (item_id m)) (menu s)")
  case None
  with assms show ?thesis by (simp add: delete_menu_def)
next
  case (Some idx)
  have "set (take idx (menu s) @ drop (Suc idx) (menu s)) \<subseteq> set (menu s)"
    by (auto dest: in_set_takeD in_set_dropD)
  with assms have "list_all (\<lambda>x. item_id x < nextId s) (take idx (menu s) @ drop (Suc idx) (menu s))"
    unfolding store_inv_def list_all_iff by blast
  moreover from assms have "distinct (map item_id (take idx (menu s) @ drop (Suc idx) (menu s)))"
    unfolding store_inv_def by (blast intro: distinct_remove_nth)
  ultimately show ?thesis
    using Some by (simp add: store_inv_def delete_menu_def)
qed

lemma store_inv_handle: "store_inv s \<Longrightarrow> store_inv (fst (handle s r))"
  by (cases r)
    (simp_all add: get_menu_def get_menu_id_def post_menu_def put_menu_def
      store_inv_handleValidation store_inv_post_handler store_inv_put_handler store_inv_delete
      split: option.splits)

lemma serve_Cons:
  "serve s (r # rs) =
     (fst (serve (fst (handle s r)) rs), snd (handle s r) # snd (serve (fst (handle s r)) rs))"
  by (simp split: prod.splits)

lemma store_inv_serve: "store_inv s \<Longrightarrow> store_inv (fst (serve s rs))"
proof (induction rs arbitrary: s)
  case Nil
  then show ?case by simp
next
  case (Cons r rs)
  from Cons.prems have "store_inv (fst (handle s r))"
    by (rule store_inv_handle)
  then have "store_inv (fst (serve (fst (handle s r)) rs))"
    by (rule Cons.IH)
  then show ?case
    by (simp only: serve_Cons fst_conv)
qed

lemma store_inv_reached: "store_inv (reached rs)"
  unfolding reached_def by (rule store_inv_serve) (rule store_inv_initial)

subsection \<open>The ids that creates hand out\<close>

lemma handle_created:
  "(created_id (snd (handle s r)) = [] \<and> nextId (fst (handle s r)) = nextId s) \<or>
   (created_id (snd (handle s r)) = [nextId s] \<and> nextId (fst (handle s r)) = nextId s + 1)"
proof (cases r)
  case (POST b)
  show ?thesis
  proof (cases "validationResult b = []")
    case True
    from post_menu_valid [OF True, of s] obtain s' x where
      "post_menu s b = (s', Response 201 (Item x))" "nextId s' = nextId s + 1" "item_id x = nextId s"
      by fastforce
    with POST show ?thesis by simp
  next
    case False
    then show ?thesis
      using POST by (simp add: post_menu_invalid)
  qed
next
  case (PUT k b)
  show ?thesis
  proof (cases "validationResult b = []")
    case True
    show ?thesis
    proof (cases "findIndex (\<lambda>m. strict_eq_id k (item_id m)) (menu s)")
      case None
      with True PUT show ?thesis
        by (simp add: put_menu_valid_missing not_found_def)
    next
      case (Some idx)
      from put_menu_valid_found [OF True Some] obtain s' x where
        "put_menu s k b = (s', Response 200 (Item x))" "nextId s' = nextId s"
        by fastforce
      with PUT show ?thesis by simp
    qed
  next
    case False
    then show ?thesis
      using PUT by (simp add: put_menu_invalid)
  qed
qed (simp_all add: get_menu_def get_menu_id_def delete_menu_def not_found_def split: option.splits)

lemma serve_created:
  "nextId s \<le> nextId (fst (serve s rs)) \<and>
   concat (map created_id (snd (serve s rs))) = [nextId s ..  nextId (fst (serve s rs)) - 1]"
proof (induction rs arbitrary: s)
  case Nil
  then show ?case by simp
next
  case (Cons r rs)
  let ?s1 = "fst (handle s r)"
  have step: "serve s (r # rs) = (fst (serve ?s1 rs), snd (handle s r) # snd (serve ?s1 rs))"
    by (rule serve_Cons)
  from Cons.IH [of ?s1]
  have le: "nextId ?s1 \<le> nextId (fst (serve ?s1 rs))"
    and ids: "concat (map created_id (snd (serve ?s1 rs))) =
      [nextId ?s1 .. nextId (fst (serve ?s1 rs)) - 1]"
    by simp_all
  from handle_created [of s r] show ?case
  proof
    assume "created_id (snd (handle s r)) = [] \<and> nextId ?s1 = nextId s"
    with le ids step show ?thesis by simp
  next
    assume h: "created_id (snd (handle s r)) = [nextId s] \<and> nextId ?s1 = nextId s + 1"
    with le have "nextId s \<le> nextId (fst (serve ?s1 rs)) - 1" by simp
    then have "[nextId s .. nextId (fst (serve ?s1 rs)) - 1] =
        nextId s # [nextId s + 1 .. nextId (fst (serve ?s1 rs)) - 1]"
      by (rule upto_rec1)
    with h le ids step show ?thesis by simp
  qed
qed

lemma nextId_initial: "nextId initial_store = 3"
  by (simp add: initial_store_def)

lemma seed_ids: "map item_id (menu initial_store) = [1, 2]"
  by (simp add: initial_store_def)

lemma assigned_ids_reached:
  "3 \<le> nextId (reached rs) \<and> set (assigned_ids (responses rs)) = {1 .. nextId (reached rs) - 1}"
proof -
  from serve_created [of initial_store rs]
  have le: "3 \<le> nextId (reached rs)"
    and ids: "concat (map created_id (responses rs)) = [3 .. nextId (reached rs) - 1]"
    unfolding reached_def responses_def nextId_initial by blast+
  have "set (assigned_ids (responses rs)) = {1, 2} \<union> {3 .. nextId (reached rs) - 1}"
    unfolding assigned_ids_def ids seed_ids by simp
  also from le have "\<dots> = {1 .. nextId (reached rs) - 1}"
    by (auto simp: atLeastAtMost_iff)
  finally show ?thesis using le by blast
qed

subsection \<open>The example requests, evaluated\<close>

lemmas validator_defs =
  chain_defs field_value_def custom_validation_def standard_validation_def values_of_def
  toString_impl_def exists_def exists_checkFalsy_def isString_def isArray_min_def
  isLength_min_def isIn_def categories_def isBoolean_def isFloat_gt0_def float_excluded_def
  float_pattern_def split_sign_def is_digit_def digit_chars_def digits_value_def
  digit_val_def Number_toString_def strip_zeros.simps digits_of.simps

lemma veggie_wrap_valid: "validationResult veggie_wrap = []"
  by (simp add: veggie_wrap_def validator_defs)

lemma too_short_errors: "validationResult too_short = 
        [(''name'', ''name min 3 chars''),
         (''description'', ''description min 10 chars''),
         (''price'', ''price must be number > 0''),
         (''category'', ''category must be appetizer, entree, dessert or beverage''),
         (''ingredients'', ''ingredients must be array with at least 1 item'')]"
  by (simp add: too_short_def validator_defs)

lemma padded_valid: "validationResult padded = []"
  by (simp add: padded_def validator_defs)


lemma veggie_wrap_off_valid: "validationResult veggie_wrap_off = []"
  by (simp add: veggie_wrap_off_def veggie_wrap_def validator_defs)

lemma veggie_wrap_one_valid: "validationResult veggie_wrap_one = []"
  by (simp add: veggie_wrap_one_def veggie_wrap_def validator_defs)

section \<open>The claims\<close>

lemma seed_lookup_999:
  "findIndex (\<lambda>m. strict_eq_id (Decimal 999 0) (item_id m)) (menu initial_store) = None"
  by (simp add: initial_store_def strict_eq_id_def)

text \<open>
  C1. The claim: a PUT whose path id matches no stored item is answered 404 and never
  400, whatever the body. On a fresh instance, \<^verbatim>\<open>PUT /api/menu/999\<close> with the body
  \<^verbatim>\<open>{}\<close> is answered 400: the validation middleware runs before the handler looks
  the id up.
\<close>

theorem put_unknown_id_counterexample:
  "findIndex (\<lambda>m. strict_eq_id (Decimal 999 0) (item_id m)) (menu initial_store) = None \<and>
   status (snd (put_menu initial_store (Decimal 999 0) Map.empty)) = 400"
  by (simp add: seed_lookup_999 put_menu_def handleValidation_def validator_defs)

text \<open>
  C1, amended. A PUT whose path id matches no stored item leaves the store as it is and
  is answered 404 when the body passes validation, and 400 with the validation errors
  when it does not.
\<close>

theorem put_unknown_id:
  assumes "findIndex (\<lambda>m. strict_eq_id k (item_id m)) (menu s) = None"
  shows "put_menu s k b =
    (s, if validationResult b = [] then not_found
        else Response 400 (Errors (validationResult b)))"
  using assms by (simp add: put_menu_valid_missing put_menu_invalid)

theorem put_unknown_id_witness:
  "findIndex (\<lambda>m. strict_eq_id (Decimal 999 0) (item_id m)) (menu initial_store) = None \<and>
   put_menu initial_store (Decimal 999 0) veggie_wrap = (initial_store, not_found)"
  using put_unknown_id [OF seed_lookup_999, of veggie_wrap]
  by (simp add: seed_lookup_999 veggie_wrap_valid)

text \<open>
  C2. The claim: every stored item has a name of at least 3 characters and a description
  of at least 10. The validators measure the text as sent and the handler stores it
  trimmed: \<^verbatim>\<open>POST\<close> of a name \<^verbatim>\<open>"A  "\<close> and a description \<^verbatim>\<open>"tasty     "\<close> on a fresh
  instance is answered 201 and stores the name \<^verbatim>\<open>"A"\<close> and the description
  \<^verbatim>\<open>"tasty"\<close>.
\<close>

theorem post_padded_stores_short_name:
  "post_menu initial_store padded =
     (initial_store
        \<lparr> nextId := 4,
          menu := menu initial_store @
            [\<lparr> item_id = 3, name = ''A'', description = ''tasty'',
               price = JNum (Decimal 5 0), category = JStr ''entree'',
               ingredients = JArr [JStr ''x''], available = True \<rparr>] \<rparr>,
      Response 201 (Item
            \<lparr> item_id = 3, name = ''A'', description = ''tasty'',
               price = JNum (Decimal 5 0), category = JStr ''entree'',
               ingredients = JArr [JStr ''x''], available = True \<rparr>)) \<and>
   \<not> isLength_min 3 (name (last (menu (fst (post_menu initial_store padded))))) \<and>
   \<not> isLength_min 10 (description (last (menu (fst (post_menu initial_store padded)))))"
proof -
  have "post_menu initial_store padded = post_handler initial_store (sanitized padded)"
    by (simp add: post_menu_def handleValidation_def padded_valid)
  also have "sanitized padded = padded"
    by (rule ext)
      (simp add: sanitized_def padded_def field_value_def standard_sanitization_def toFloat_def
        toString_impl_def Number_toString_def strip_zeros.simps digits_of.simps digit_chars_def
        float_excluded_def float_pattern_def split_sign_def is_digit_def digits_value_def digit_val_def)
  also have "post_handler initial_store padded =
     (initial_store
        \<lparr> nextId := 4,
          menu := menu initial_store @
            [\<lparr> item_id = 3, name = ''A'', description = ''tasty'',
               price = JNum (Decimal 5 0), category = JStr ''entree'',
               ingredients = JArr [JStr ''x''], available = True \<rparr>] \<rparr>,
      Response 201 (Item
            \<lparr> item_id = 3, name = ''A'', description = ''tasty'',
               price = JNum (Decimal 5 0), category = JStr ''entree'',
               ingredients = JArr [JStr ''x''], available = True \<rparr>))"
    by (simp add: post_handler_def padded_def field_value_def trim_method_def trim_def
        is_space_def boolean_or_def nextId_initial Let_def)
  finally show ?thesis
    by (simp add: isLength_min_def)
qed

lemma toBoolean_texts:
  "toBoolean ''true'' = JBool True" "toBoolean ''1'' = JBool True"
  "toBoolean ''false'' = JBool False" "toBoolean ''0'' = JBool False"
  by code_simp+

lemma toBoolean_accepted:
  assumes "isBoolean s"
  shows "toBoolean s = JBool (s = ''true'' \<or> s = ''1'')"
proof -
  from assms have "s = ''true'' \<or> s = ''false'' \<or> s = ''1'' \<or> s = ''0''"
    unfolding isBoolean_def by (simp only: set_simps insert_iff empty_iff simp_thms)
  then show ?thesis
    by (elim disjE) (simp_all add: toBoolean_texts)
qed

lemma valid_available:
  assumes "validationResult b = []" and "field_value b ''available'' \<noteq> JUndefined"
  shows "list_all (\<lambda>x. isBoolean (toString_impl x)) (values_of (field_value b ''available''))"
  using assms by (simp add: chain_defs Let_def standard_validation_Nil)

lemma created_available:
  assumes "validationResult b = []"
  shows "boolean_or (field_value (sanitized b) ''available'') True =
    (case field_value b ''available'' of
       JUndefined \<Rightarrow> True
     | JBool a \<Rightarrow> a
     | JArr xs \<Rightarrow> True
     | _ \<Rightarrow> toString_impl (field_value b ''available'') \<in> {''true'', ''1''})"
proof (cases "field_value b ''available'' = JUndefined")
  case True
  then show ?thesis by (simp add: available_sanitized boolean_or_def)
next
  case False
  note ok = valid_available [OF assms False]
  show ?thesis
  proof (cases "field_value b ''available''")
    case (JArr xs)
    then show ?thesis
      by (simp add: available_sanitized boolean_or_def standard_sanitization_def)
  next
    case (JBool a)
    then show ?thesis
      by (simp add: available_sanitized boolean_or_def standard_sanitization_def
          toString_impl_def toBoolean_def ascii_lower_def)
  next
    case JUndefined
    with False show ?thesis by simp
  next
    case JNull
    with ok show ?thesis
      by (simp add: available_sanitized boolean_or_def standard_sanitization_def values_of_def
          toBoolean_accepted)
  next
    case (JNum x)
    with ok show ?thesis
      by (simp add: available_sanitized boolean_or_def standard_sanitization_def values_of_def
          toBoolean_accepted)
  next
    case (JStr x)
    with ok show ?thesis
      by (simp add: available_sanitized boolean_or_def standard_sanitization_def values_of_def
          toBoolean_accepted)
  next
    case (JObj x)
    with ok show ?thesis
      by (simp add: available_sanitized boolean_or_def standard_sanitization_def values_of_def
          toBoolean_accepted)
  qed
qed

text \<open>
  C3. The claim: the created item is available whenever the payload's \<^verbatim>\<open>available\<close> was
  absent or was not a boolean. The string \<^verbatim>\<open>"false"\<close> is not a boolean, passes
  \<^verbatim>\<open>isBoolean()\<close>, is turned into \<^verbatim>\<open>false\<close> by \<^verbatim>\<open>toBoolean()\<close> and is stored so.
\<close>

theorem create_available_counterexample:
  "validationResult veggie_wrap_off = [] \<and>
   field_value veggie_wrap_off ''available'' = JStr ''false'' \<and>
   (\<exists>s' x. post_menu initial_store veggie_wrap_off = (s', Response 201 (Item x)) \<and>
      available x = False)"
proof -
  have "field_value veggie_wrap_off ''available'' = JStr ''false''"
    by (simp add: veggie_wrap_off_def field_value_def)
  moreover from this have "boolean_or (field_value (sanitized veggie_wrap_off) ''available'') True = False"
    by (simp add: created_available [OF veggie_wrap_off_valid] toString_impl_def)
  moreover note post_menu_valid [OF veggie_wrap_off_valid, of initial_store] veggie_wrap_off_valid
  ultimately show ?thesis by auto
qed

text \<open>
  C3, amended. For every create request that passes validation, the created and returned
  item is available when the payload's \<^verbatim>\<open>available\<close> is absent or an array; a boolean
  is stored as given; and any other accepted value (the strings \<^verbatim>\<open>"true"\<close>,
  \<^verbatim>\<open>"false"\<close>, \<^verbatim>\<open>"1"\<close>, \<^verbatim>\<open>"0"\<close> and the numbers 1 and 0) is stored as the boolean
  that \<^verbatim>\<open>toBoolean()\<close> makes of it: true exactly when its text is \<^verbatim>\<open>true\<close> or \<^verbatim>\<open>1\<close>.
\<close>

theorem create_available:
  assumes "validationResult b = []"
  shows "\<exists>s' x. post_menu s b = (s', Response 201 (Item x)) \<and>
    available x =
      (case field_value b ''available'' of
         JUndefined \<Rightarrow> True
       | JBool a \<Rightarrow> a
       | JArr xs \<Rightarrow> True
       | _ \<Rightarrow> toString_impl (field_value b ''available'') \<in> {''true'', ''1''})"
proof -
  from post_menu_valid [OF assms, of s] obtain s' x where
    "post_menu s b = (s', Response 201 (Item x))"
    "available x = boolean_or (field_value (sanitized b) ''available'') True"
    by fastforce
  with created_available [OF assms] show ?thesis by simp
qed

theorem create_available_witness:
  "validationResult veggie_wrap_one = [] \<and>
   field_value veggie_wrap_one ''available'' = JNum (Decimal 1 0) \<and>
   (\<exists>s' x. post_menu initial_store veggie_wrap_one = (s', Response 201 (Item x)) \<and>
      available x = True)"
proof -
  have v: "field_value veggie_wrap_one ''available'' = JNum (Decimal 1 0)"
    by (simp add: veggie_wrap_one_def field_value_def)
  have "toString_impl (JNum (Decimal 1 0)) = ''1''"
    by (simp add: toString_impl_def Number_toString_def strip_zeros.simps digits_of.simps
        digit_chars_def)
  with create_available [OF veggie_wrap_one_valid, of initial_store] v veggie_wrap_one_valid
  show ?thesis by simp
qed

text \<open>
  C4. A POST with the body \<^verbatim>\<open>{name:"Hi", description:"short", price:-1,
  category:"snack", ingredients:[]}\<close> is answered 400 with exactly five errors, one for
  each field, in the order of the chains, and the store stays as it is.
\<close>

theorem post_too_short:
  "post_menu s too_short =
     (s, Response 400 (Errors
        [(''name'', ''name min 3 chars''),
         (''description'', ''description min 10 chars''),
         (''price'', ''price must be number > 0''),
         (''category'', ''category must be appetizer, entree, dessert or beverage''),
         (''ingredients'', ''ingredients must be array with at least 1 item'')])) \<and>
   length (validationResult too_short) = 5"
  by (simp add: post_menu_def handleValidation_def too_short_errors)

lemma missing_required_invalid:
  assumes "f \<in> set required_fields" and "b f = None"
  shows "validationResult b \<noteq> []"
proof -
  from assms(2) have u: "field_value b f = JUndefined"
    by (simp add: field_value_def)
  from assms(1) have "f = ''name'' \<or> f = ''description'' \<or> f = ''price''
    \<or> f = ''category'' \<or> f = ''ingredients''"
    unfolding required_fields_def by (simp only: set_simps insert_iff empty_iff simp_thms)
  then consider "f = ''name''" | "f = ''description''" | "f = ''price''"
    | "f = ''category''" | "f = ''ingredients''"
    by blast
  then show ?thesis
  proof cases
    case 1
    with u have "name_chain b \<noteq> []"
      by (simp add: name_chain_def custom_validation_def exists_checkFalsy_def)
    then show ?thesis by (simp add: validationResult_def)
  next
    case 2
    with u have "description_chain b \<noteq> []"
      by (simp add: description_chain_def custom_validation_def exists_checkFalsy_def)
    then show ?thesis by (simp add: validationResult_def)
  next
    case 3
    with u have "price_chain b \<noteq> []"
      by (simp add: price_chain_def custom_validation_def exists_def)
    then show ?thesis by (simp add: validationResult_def)
  next
    case 4
    with u have "category_chain b \<noteq> []"
      by (simp add: category_chain_def custom_validation_def exists_checkFalsy_def)
    then show ?thesis by (simp add: validationResult_def)
  next
    case 5
    with u have "ingredients_chain b \<noteq> []"
      by (simp add: ingredients_chain_def custom_validation_def exists_def)
    then show ?thesis by (simp add: validationResult_def)
  qed
qed

text \<open>
  C5. A create or update request whose payload lacks one of the required fields is
  answered 400, with a non-empty list of errors, and the store (the collection and the
  counter) is the same after the request as before.
\<close>

theorem missing_required_field:
  assumes "f \<in> set required_fields" and "b f = None"
  shows "validationResult b \<noteq> [] \<and>
    post_menu s b = (s, Response 400 (Errors (validationResult b))) \<and>
    put_menu s k b = (s, Response 400 (Errors (validationResult b)))"
  using missing_required_invalid [of f b] assms
  by (simp add: post_menu_invalid put_menu_invalid)

theorem missing_required_field_witness:
  "''price'' \<in> set required_fields \<and> (veggie_wrap(''price'' := None)) ''price'' = None \<and>
   post_menu initial_store (veggie_wrap(''price'' := None)) =
     (initial_store, Response 400 (Errors
        [(''price'', ''price required''), (''price'', ''price must be number > 0'')])) \<and>
   put_menu initial_store (Decimal 1 0) (veggie_wrap(''price'' := None)) =
     (initial_store, Response 400 (Errors
        [(''price'', ''price required''), (''price'', ''price must be number > 0'')]))"
proof -
  have f: "''price'' \<in> set required_fields"
    by (simp add: required_fields_def)
  have m: "(veggie_wrap(''price'' := None)) ''price'' = None"
    by simp
  have "validationResult (veggie_wrap(''price'' := None)) =
      [(''price'', ''price required''), (''price'', ''price must be number > 0'')]"
    by (simp add: veggie_wrap_def validator_defs)
  with missing_required_field [of "''price''" "veggie_wrap(''price'' := None)" initial_store "Decimal 1 0"] f m
  show ?thesis by simp
qed

lemma reached_Nil: "reached [] = initial_store"
  by (simp add: reached_def)

lemma find_append_last:
  "\<forall>y \<in> set xs. \<not> P y \<Longrightarrow> P x \<Longrightarrow> find P (xs @ [x]) = Some x"
  by (induction xs) simp_all

lemma store_inv_fresh:
  assumes "store_inv s" and "y \<in> set (menu s)"
  shows "item_id y < nextId s"
  using assms by (simp add: store_inv_def list_all_iff)

text \<open>
  C6. After any requests served by a fresh instance, a create request that passes
  validation is answered 201, appends the new item at the end of the collection, which
  grows by exactly one, and gives it an id that was never assigned before: the largest
  id assigned so far plus 1. On the fresh instance itself that id is 3.
\<close>

theorem create_assigns_next_id:
  assumes "validationResult b = []"
  shows "(\<exists>s' x. post_menu (reached rs) b = (s', Response 201 (Item x)) \<and>
      menu s' = menu (reached rs) @ [x] \<and>
      length (menu s') = length (menu (reached rs)) + 1 \<and>
      item_id x \<notin> set (assigned_ids (responses rs)) \<and>
      item_id x \<notin> set (map item_id (menu (reached rs))) \<and>
      item_id x = Max (set (assigned_ids (responses rs))) + 1) \<and>
    (\<exists>s' x. post_menu initial_store b = (s', Response 201 (Item x)) \<and> item_id x = 3)"
proof -
  let ?s = "reached rs"
  from post_menu_valid [OF assms, of ?s] obtain s' x where
    post: "post_menu ?s b = (s', Response 201 (Item x))"
    and menu: "menu s' = menu ?s @ [x]"
    and id: "item_id x = nextId ?s"
    by fastforce
  from assigned_ids_reached [of rs]
  have le: "3 \<le> nextId ?s"
    and ids: "set (assigned_ids (responses rs)) = {1 .. nextId ?s - 1}"
    by simp_all
  from le have "Max {1 .. nextId ?s - 1} = nextId ?s - 1"
    by (intro Max_eqI) auto
  with ids id have max: "item_id x = Max (set (assigned_ids (responses rs))) + 1"
    by simp
  from ids id have new: "item_id x \<notin> set (assigned_ids (responses rs))"
    by simp
  have "\<forall>y \<in> set (menu ?s). item_id y < nextId ?s"
    using store_inv_fresh [OF store_inv_reached] by blast
  then have unused: "item_id x \<notin> set (map item_id (menu ?s))"
    unfolding id by force
  from post_menu_valid [OF assms, of initial_store] obtain s0 x0 where
    "post_menu initial_store b = (s0, Response 201 (Item x0))" "item_id x0 = nextId initial_store"
    by fastforce
  then have "\<exists>s' x. post_menu initial_store b = (s', Response 201 (Item x)) \<and> item_id x = 3"
    by (simp add: nextId_initial)
  with post menu max new unused show ?thesis
    by auto
qed

lemma responses_veggie_wrap:
  "assigned_ids (responses [POST veggie_wrap]) = [1, 2, 3]"
proof -
  from post_menu_valid [OF veggie_wrap_valid, of initial_store] obtain s' x where
    "post_menu initial_store veggie_wrap = (s', Response 201 (Item x))" "item_id x = 3"
    by (fastforce simp: nextId_initial)
  then show ?thesis
    by (simp add: responses_def assigned_ids_def seed_ids)
qed

theorem create_assigns_next_id_witness:
  "validationResult veggie_wrap = [] \<and>
   (\<exists>s' x. post_menu (reached [POST veggie_wrap]) veggie_wrap = (s', Response 201 (Item x)) \<and>
      menu s' = menu (reached [POST veggie_wrap]) @ [x] \<and> item_id x = 4)"
proof -
  note create_assigns_next_id [OF veggie_wrap_valid, of "[POST veggie_wrap]"]
  then obtain s' x where
    "post_menu (reached [POST veggie_wrap]) veggie_wrap = (s', Response 201 (Item x))"
    "menu s' = menu (reached [POST veggie_wrap]) @ [x]"
    "item_id x = Max (set (assigned_ids (responses [POST veggie_wrap]))) + 1"
    by blast
  then show ?thesis
    using veggie_wrap_valid by (simp add: responses_veggie_wrap)
qed

text \<open>
  C7. After any requests served by a fresh instance, a create request that passes
  validation is answered with the created item, and fetching the returned id right away
  returns that very item, field for field: the name and the description trimmed, the
  price as \<^verbatim>\<open>toFloat()\<close> left it, the category and the ingredients as sent.
\<close>

theorem create_then_get:
  assumes "validationResult b = []"
  shows "\<exists>s' x n d. post_menu (reached rs) b = (s', Response 201 (Item x)) \<and>
      get_menu_id s' (Decimal (item_id x) 0) = (s', Response 200 (Item x)) \<and>
      field_value b ''name'' = JStr n \<and> name x = trim n \<and>
      field_value b ''description'' = JStr d \<and> description x = trim d \<and>
      price x = standard_sanitization toFloat (field_value b ''price'') \<and>
      category x = field_value b ''category'' \<and>
      ingredients x = field_value b ''ingredients''"
proof -
  let ?s = "reached rs"
  from post_menu_valid [OF assms, of ?s] obtain s' x n d where
    post: "post_menu ?s b = (s', Response 201 (Item x))"
    and menu: "menu s' = menu ?s @ [x]"
    and id: "item_id x = nextId ?s"
    and fields: "field_value b ''name'' = JStr n" "name x = trim n"
      "field_value b ''description'' = JStr d" "description x = trim d"
      "price x = standard_sanitization toFloat (field_value b ''price'')"
      "category x = field_value b ''category''"
      "ingredients x = field_value b ''ingredients''"
    by fastforce
  have "\<forall>y \<in> set (menu ?s). \<not> strict_eq_id (Decimal (item_id x) 0) (item_id y)"
    using store_inv_fresh [OF store_inv_reached] id by (fastforce simp: strict_eq_id_int)
  then have "find (\<lambda>m. strict_eq_id (Decimal (item_id x) 0) (item_id m)) (menu s') = Some x"
    unfolding menu by (rule find_append_last) (simp add: strict_eq_id_int)
  then have "get_menu_id s' (Decimal (item_id x) 0) = (s', Response 200 (Item x))"
    by (simp add: get_menu_id_def)
  with post fields show ?thesis
    by blast
qed

theorem create_then_get_witness:
  "validationResult veggie_wrap = [] \<and>
   (\<exists>s' x. post_menu (reached [DELETE (Decimal 2 0)]) veggie_wrap = (s', Response 201 (Item x)) \<and>
      get_menu_id s' (Decimal (item_id x) 0) = (s', Response 200 (Item x)) \<and>
      name x = ''Veggie Wrap'')"
proof -
  have n: "field_value veggie_wrap ''name'' = JStr ''Veggie Wrap''"
    by (simp add: veggie_wrap_def field_value_def)
  have t: "trim ''Veggie Wrap'' = ''Veggie Wrap''"
    by (simp add: trim_def is_space_def)
  from create_then_get [OF veggie_wrap_valid, of "[DELETE (Decimal 2 0)]"] n t
  show ?thesis
    using veggie_wrap_valid by auto
qed

lemma remove_nth_filter:
  "distinct xs \<Longrightarrow> i < length xs \<Longrightarrow>
     take i xs @ drop (Suc i) xs = filter (\<lambda>m. m \<noteq> xs ! i) xs"
proof (induction xs arbitrary: i)
  case Nil
  then show ?case by simp
next
  case (Cons a xs)
  show ?case
  proof (cases i)
    case 0
    from Cons.prems have "filter (\<lambda>m. m \<noteq> a) xs = xs"
      by (auto simp: filter_id_conv)
    with 0 show ?thesis by simp
  next
    case (Suc j)
    with Cons.prems have "xs ! j \<in> set xs" "a \<notin> set xs"
      by simp_all
    then have "a \<noteq> xs ! j" by blast
    with Cons.IH [of j] Cons.prems Suc show ?thesis by simp
  qed
qed

lemma store_inv_same_item:
  assumes "store_inv s" and "x \<in> set (menu s)" and "y \<in> set (menu s)"
    and "item_id x = item_id y"
  shows "x = y"
proof -
  from assms(1) have "inj_on item_id (set (menu s))"
    by (simp add: store_inv_def distinct_map)
  with assms(2-4) show ?thesis
    by (auto dest: inj_onD)
qed

text \<open>
  C8. After any requests served by a fresh instance, deleting the id of a stored item
  returns that item, takes exactly it out of the collection and leaves the other items,
  in their order and with all their fields, and the counter as they were; deleting the
  same id again is answered 404.
\<close>

theorem delete_removes_one:
  assumes "x \<in> set (menu (reached rs))" and "strict_eq_id k (item_id x)"
  shows "\<exists>s'. delete_menu (reached rs) k = (s', Response 200 (Item x)) \<and>
      nextId s' = nextId (reached rs) \<and>
      menu s' = filter (\<lambda>m. m \<noteq> x) (menu (reached rs)) \<and>
      length (menu s') + 1 = length (menu (reached rs)) \<and>
      delete_menu s' k = (s', not_found)"
proof -
  let ?s = "reached rs" and ?P = "\<lambda>m. strict_eq_id k (item_id m)"
  have inv: "store_inv ?s" by (rule store_inv_reached)
  from assms have "findIndex ?P (menu ?s) \<noteq> None"
    by (auto simp: findIndex_None)
  then obtain idx where idx: "findIndex ?P (menu ?s) = Some idx" by blast
  from findIndex_Some [OF idx] have lt: "idx < length (menu ?s)" and at: "?P (menu ?s ! idx)"
    by simp_all
  from at assms(2) have "item_id (menu ?s ! idx) = item_id x"
    by (rule strict_eq_id_unique)
  with inv lt assms(1) have x: "menu ?s ! idx = x"
    by (intro store_inv_same_item [of ?s]) simp_all
  from inv have dist: "distinct (menu ?s)"
    by (simp add: store_inv_def distinct_map)
  let ?s' = "?s\<lparr>menu := take idx (menu ?s) @ drop (Suc idx) (menu ?s)\<rparr>"
  from idx x have del: "delete_menu ?s k = (?s', Response 200 (Item x))"
    by (simp add: delete_menu_def)
  from remove_nth_filter [OF dist lt] x
  have rest: "menu ?s' = filter (\<lambda>m. m \<noteq> x) (menu ?s)"
    by simp
  have len: "length (menu ?s') + 1 = length (menu ?s)"
    using lt by simp
  have "\<not> ?P m" if "m \<in> set (menu ?s')" for m
  proof
    assume "?P m"
    then have "item_id m = item_id x"
      using assms(2) by (rule strict_eq_id_unique)
    moreover from that rest have "m \<in> set (menu ?s)" "m \<noteq> x"
      by simp_all
    ultimately show False
      using store_inv_same_item [OF inv _ assms(1)] by blast
  qed
  then have "findIndex ?P (menu ?s') = None"
    by (simp only: findIndex_None) blast
  then have again: "delete_menu ?s' k = (?s', not_found)"
    by (simp add: delete_menu_def)
  from del rest len again show ?thesis
    by (intro exI [of _ ?s']) simp
qed

theorem delete_removes_one_witness:
  "menu initial_store ! 0 \<in> set (menu (reached [])) \<and>
   strict_eq_id (Decimal 1 0) (item_id (menu initial_store ! 0)) \<and>
   (\<exists>s'. delete_menu (reached []) (Decimal 1 0) = (s', Response 200 (Item (menu initial_store ! 0))) \<and>
      menu s' = [menu initial_store ! 1] \<and>
      delete_menu s' (Decimal 1 0) = (s', not_found))"
proof -
  have a: "menu initial_store ! 0 \<in> set (menu (reached []))"
    by (simp add: reached_Nil initial_store_def)
  have b: "strict_eq_id (Decimal 1 0) (item_id (menu initial_store ! 0))"
    by (simp add: initial_store_def strict_eq_id_def)
  have c: "filter (\<lambda>m. m \<noteq> menu initial_store ! 0) (menu (reached [])) = [menu initial_store ! 1]"
    by (simp add: reached_Nil initial_store_def)
  from delete_removes_one [OF a b] a b show ?thesis
    unfolding c by blast
qed

lemma no_match_not_found:
  assumes "\<forall>m \<in> set (menu s). \<not> strict_eq_id k (item_id m)"
  shows "get_menu_id s k = (s, not_found)"
    and "delete_menu s k = (s, not_found)"
    and "put_menu s k b =
      (s, if validationResult b = [] then not_found
          else Response 400 (Errors (validationResult b)))"
proof -
  from assms have f: "find (\<lambda>m. strict_eq_id k (item_id m)) (menu s) = None"
    by (simp add: find_None)
  from assms have fi: "findIndex (\<lambda>m. strict_eq_id k (item_id m)) (menu s) = None"
    by (simp add: findIndex_None)
  from f show "get_menu_id s k = (s, not_found)"
    by (simp add: get_menu_id_def)
  from fi show "delete_menu s k = (s, not_found)"
    by (simp add: delete_menu_def)
  from fi show "put_menu s k b =
      (s, if validationResult b = [] then not_found
          else Response 400 (Errors (validationResult b)))"
    by (simp add: put_menu_valid_missing put_menu_invalid)
qed

lemma find_first_match:
  "x \<in> set xs \<Longrightarrow> P x \<Longrightarrow> \<exists>y. find P xs = Some y \<and> P y"
  by (induction xs) auto

lemma match_found:
  assumes "x \<in> set (menu s)"
  shows "\<exists>y. get_menu_id s (Decimal (item_id x) 0) = (s, Response 200 (Item y)) \<and>
      item_id y = item_id x"
    and "\<exists>s' y. delete_menu s (Decimal (item_id x) 0) = (s', Response 200 (Item y)) \<and>
      item_id y = item_id x"
    and "validationResult b = [] \<Longrightarrow>
      \<exists>s' y. put_menu s (Decimal (item_id x) 0) b = (s', Response 200 (Item y)) \<and>
        item_id y = item_id x"
proof -
  let ?P = "\<lambda>m. strict_eq_id (Decimal (item_id x) 0) (item_id m)"
  have px: "?P x" by (simp add: strict_eq_id_int)
  from find_first_match [of x "menu s" ?P, OF assms px]
  obtain y where "find ?P (menu s) = Some y" "item_id y = item_id x"
    by (auto simp: strict_eq_id_int)
  then show "\<exists>y. get_menu_id s (Decimal (item_id x) 0) = (s, Response 200 (Item y)) \<and>
      item_id y = item_id x"
    by (simp add: get_menu_id_def)
  from assms px have "findIndex ?P (menu s) \<noteq> None"
    by (auto simp: findIndex_None)
  then obtain idx where idx: "findIndex ?P (menu s) = Some idx" by blast
  from findIndex_Some [OF idx] have at: "item_id (menu s ! idx) = item_id x"
    by (simp add: strict_eq_id_int)
  from idx at show "\<exists>s' y. delete_menu s (Decimal (item_id x) 0) = (s', Response 200 (Item y)) \<and>
      item_id y = item_id x"
    by (simp add: delete_menu_def)
  show "\<exists>s' y. put_menu s (Decimal (item_id x) 0) b = (s', Response 200 (Item y)) \<and>
        item_id y = item_id x" if "validationResult b = []"
  proof -
    from put_menu_valid_found [OF that idx] obtain s' y where
      "put_menu s (Decimal (item_id x) 0) b = (s', Response 200 (Item y))"
      "item_id y = item_id (menu s ! idx)"
      by fastforce
    with at show ?thesis by auto
  qed
qed

text \<open>
  C9. The claim: a path id that is not a whole number produces the NotFound response in
  get, update and delete. On a fresh instance, \<^verbatim>\<open>PUT /api/menu/1.5\<close> with the body
  \<^verbatim>\<open>{}\<close> is answered 400 and not 404: the validation middleware answers before the
  handler compares any id.
\<close>

theorem id_lookup_counterexample:
  "\<not> is_integer (Decimal 15 (- 1)) \<and>
   status (snd (put_menu initial_store (Decimal 15 (- 1)) Map.empty)) = 400 \<and>
   snd (put_menu initial_store (Decimal 15 (- 1)) Map.empty) \<noteq> not_found"
  by (simp add: is_integer_def not_found_def put_menu_def handleValidation_def validator_defs)

text \<open>
  C9, amended. Id lookup in get, update and delete is exact equality with the stored
  integer ids: the id of a stored item finds an item of that id (200), and a whole number
  that no stored item carries finds none. A path id whose number is not a whole number
  (or is \<^verbatim>\<open>NaN\<close>) is not rejected on its own account and equals no stored id: get and
  delete are answered 404 with the store unchanged, and update is answered 404 when the
  body passes validation and 400 with the validation errors when it does not.
\<close>

theorem id_lookup:
  "(\<not> is_integer k \<longrightarrow>
      get_menu_id s k = (s, not_found) \<and>
      delete_menu s k = (s, not_found) \<and>
      put_menu s k b =
        (s, if validationResult b = [] then not_found
            else Response 400 (Errors (validationResult b)))) \<and>
   (i \<notin> set (map item_id (menu s)) \<longrightarrow>
      get_menu_id s (Decimal i 0) = (s, not_found) \<and>
      delete_menu s (Decimal i 0) = (s, not_found) \<and>
      put_menu s (Decimal i 0) b =
        (s, if validationResult b = [] then not_found
            else Response 400 (Errors (validationResult b)))) \<and>
   (x \<in> set (menu s) \<longrightarrow>
      (\<exists>y. get_menu_id s (Decimal (item_id x) 0) = (s, Response 200 (Item y)) \<and>
         item_id y = item_id x) \<and>
      (\<exists>s' y. delete_menu s (Decimal (item_id x) 0) = (s', Response 200 (Item y)) \<and>
         item_id y = item_id x) \<and>
      (validationResult b = [] \<longrightarrow>
         (\<exists>s' y. put_menu s (Decimal (item_id x) 0) b = (s', Response 200 (Item y)) \<and>
            item_id y = item_id x)))"
proof (intro conjI impI)
  assume "\<not> is_integer k"
  then have no: "\<forall>m \<in> set (menu s). \<not> strict_eq_id k (item_id m)"
    using strict_eq_id_integer by blast
  from no show "get_menu_id s k = (s, not_found)"
    by (rule no_match_not_found)
  from no show "delete_menu s k = (s, not_found)"
    by (rule no_match_not_found)
  from no show "put_menu s k b =
        (s, if validationResult b = [] then not_found
            else Response 400 (Errors (validationResult b)))"
    by (rule no_match_not_found)
next
  assume "i \<notin> set (map item_id (menu s))"
  then have no: "\<forall>m \<in> set (menu s). \<not> strict_eq_id (Decimal i 0) (item_id m)"
    by (auto simp: strict_eq_id_int)
  from no show "get_menu_id s (Decimal i 0) = (s, not_found)"
    by (rule no_match_not_found)
  from no show "delete_menu s (Decimal i 0) = (s, not_found)"
    by (rule no_match_not_found)
  from no show "put_menu s (Decimal i 0) b =
        (s, if validationResult b = [] then not_found
            else Response 400 (Errors (validationResult b)))"
    by (rule no_match_not_found)
next
  assume x: "x \<in> set (menu s)"
  from x show "\<exists>y. get_menu_id s (Decimal (item_id x) 0) = (s, Response 200 (Item y)) \<and>
         item_id y = item_id x"
    by (rule match_found)
  from x show "\<exists>s' y. delete_menu s (Decimal (item_id x) 0) = (s', Response 200 (Item y)) \<and>
         item_id y = item_id x"
    by (rule match_found)
  assume "validationResult b = []"
  with x show "\<exists>s' y. put_menu s (Decimal (item_id x) 0) b = (s', Response 200 (Item y)) \<and>
            item_id y = item_id x"
    by (rule match_found)
qed

theorem id_lookup_witness:
  "\<not> is_integer (Decimal 15 (- 1)) \<and>
   999 \<notin> set (map item_id (menu initial_store)) \<and>
   menu initial_store ! 1 \<in> set (menu initial_store) \<and>
   validationResult veggie_wrap = [] \<and>
   get_menu_id initial_store (Decimal 15 (- 1)) = (initial_store, not_found) \<and>
   delete_menu initial_store (Decimal 15 (- 1)) = (initial_store, not_found) \<and>
   put_menu initial_store (Decimal 15 (- 1)) veggie_wrap = (initial_store, not_found) \<and>
   get_menu_id initial_store (Decimal 999 0) = (initial_store, not_found) \<and>
   delete_menu initial_store (Decimal 999 0) = (initial_store, not_found) \<and>
   (\<exists>y. get_menu_id initial_store (Decimal 2 0) = (initial_store, Response 200 (Item y)) \<and>
      item_id y = 2) \<and>
   (\<exists>s' y. delete_menu initial_store (Decimal 2 0) = (s', Response 200 (Item y)) \<and>
      item_id y = 2) \<and>
   (\<exists>s' y. put_menu initial_store (Decimal 2 0) veggie_wrap = (s', Response 200 (Item y)) \<and>
      item_id y = 2)"
proof -
  have n: "\<not> is_integer (Decimal 15 (- 1))"
    by (simp add: is_integer_def)
  have a: "999 \<notin> set (map item_id (menu initial_store))"
    by (simp add: seed_ids)
  have x: "menu initial_store ! 1 \<in> set (menu initial_store)"
    by (simp add: initial_store_def)
  have i: "item_id (menu initial_store ! 1) = 2"
    by (simp add: initial_store_def)
  from id_lookup [of "Decimal 15 (- 1)" initial_store veggie_wrap 999 "menu initial_store ! 1"]
    n a x i veggie_wrap_valid
  show ?thesis
    by simp
qed

lemma field_value_other:
  "f \<noteq> g \<Longrightarrow> field_value (b(g \<mapsto> v)) f = field_value b f"
  by (simp add: field_value_def)

lemma validationResult_id: "validationResult (b(''id'' \<mapsto> v)) = validationResult b"
  by (simp add: chain_defs field_value_other)

lemma sanitized_id: "sanitized (b(''id'' \<mapsto> v)) = (sanitized b)(''id'' \<mapsto> v)"
  by (simp add: sanitized_def Let_def field_value_other fun_upd_twist)

lemma put_handler_id:
  "put_handler k s (sanitized (b(''id'' \<mapsto> v))) = put_handler k s (sanitized b)"
  by (simp add: put_handler_def sanitized_id field_value_other cong: option.case_cong)

lemma put_menu_id: "put_menu s k (b(''id'' \<mapsto> v)) = put_menu s k b"
  by (simp add: put_menu_def handleValidation_def validationResult_id put_handler_id Let_def)

text \<open>
  C10. An update of an existing item that passes validation keeps the item's id: the
  item returned and stored at the same place carries the id it had, the ids of the
  collection and the counter are as before, and an \<^verbatim>\<open>id\<close> member of the payload changes
  nothing in the store or the response, for the handler never reads it.
\<close>

theorem update_keeps_id:
  assumes "validationResult b = []"
    and "findIndex (\<lambda>m. strict_eq_id k (item_id m)) (menu s) = Some idx"
  shows "\<exists>s' x. put_menu s k b = (s', Response 200 (Item x)) \<and>
      put_menu s k (b(''id'' \<mapsto> v)) = (s', Response 200 (Item x)) \<and>
      menu s' ! idx = x \<and>
      item_id x = item_id (menu s ! idx) \<and>
      strict_eq_id k (item_id x) \<and>
      map item_id (menu s') = map item_id (menu s) \<and>
      nextId s' = nextId s"
proof -
  from findIndex_Some [OF assms(2)]
  have lt: "idx < length (menu s)" and at: "strict_eq_id k (item_id (menu s ! idx))"
    by simp_all
  from put_menu_valid_found [OF assms] obtain s' x where
    put: "put_menu s k b = (s', Response 200 (Item x))"
    and menu: "menu s' = (menu s)[idx := x]"
    and id: "item_id x = item_id (menu s ! idx)"
    and cnt: "nextId s' = nextId s"
    by fastforce
  from menu lt have "menu s' ! idx = x" by simp
  moreover from menu id have "map item_id (menu s') = map item_id (menu s)"
    by (simp add: map_item_id_update)
  ultimately show ?thesis
    using put id at cnt by (simp add: put_menu_id)
qed

theorem update_keeps_id_witness:
  "validationResult veggie_wrap = [] \<and>
   findIndex (\<lambda>m. strict_eq_id (Decimal 2 0) (item_id m)) (menu initial_store) = Some 1 \<and>
   (\<exists>s' x. put_menu initial_store (Decimal 2 0) veggie_wrap = (s', Response 200 (Item x)) \<and>
      put_menu initial_store (Decimal 2 0) (veggie_wrap(''id'' \<mapsto> JNum (Decimal 77 0))) =
        (s', Response 200 (Item x)) \<and>
      item_id x = 2 \<and> map item_id (menu s') = [1, 2])"
proof -
  have f: "findIndex (\<lambda>m. strict_eq_id (Decimal 2 0) (item_id m)) (menu initial_store) = Some 1"
    by (simp add: initial_store_def strict_eq_id_def)
  have i: "item_id (menu initial_store ! 1) = 2"
    by (simp add: initial_store_def)
  from update_keeps_id [OF veggie_wrap_valid f, of "JNum (Decimal 77 0)"] i
  obtain s' x where
    "put_menu initial_store (Decimal 2 0) veggie_wrap = (s', Response 200 (Item x))"
    "put_menu initial_store (Decimal 2 0) (veggie_wrap(''id'' \<mapsto> JNum (Decimal 77 0))) =
       (s', Response 200 (Item x))"
    "item_id x = 2" "map item_id (menu s') = [1, 2]"
    unfolding seed_ids by auto
  with f veggie_wrap_valid show ?thesis
    by simp
qed

end
